theory Spec2Isabelle
  imports Complex_Main
begin

section \<open>Values, exceptions and observable events\<close>

text \<open>
  The request body is a decoded JSON object, as section 6 of the specification has it and
  as \<open>tests.py\<close> builds it; the middleware that decodes it (\<open>utils.JSONTranslator\<close>) is not
  among the source files. Its values are JSON values; Python decides \<open>if raise_error:\<close>
  by truthiness and \<open>doc.get('key') != self.api_key\<close> by equality of a JSON value with a
  string or \<open>None\<close>.
\<close>

datatype json =
    JNull
  | JBool bool
  | JNum rat
  | JStr string
  | JArr "json list"
  | JObj "(string \<times> json) list"

fun truthy :: "json \<Rightarrow> bool" where
  "truthy JNull = False"
| "truthy (JBool b) = b"
| "truthy (JNum x) = (x \<noteq> 0)"
| "truthy (JStr s) = (s \<noteq> [])"
| "truthy (JArr xs) = (xs \<noteq> [])"
| "truthy (JObj kvs) = (kvs \<noteq> [])"

type_synonym doc = "string \<rightharpoonup> json"

text \<open>
  Exceptions are values. \<open>OtherError\<close> stands for any exception class that the handler
  does not name (connection errors, HTTP status errors, API errors), tagged with its class
  name. The last two are the falcon errors the handler raises itself.
\<close>

datatype exn =
    RuntimeError string
  | is_KeyError: KeyError string
  | CircuitBreakerError
  | OtherError string
  | is_HTTPNotFound: HTTPNotFound
  | is_HTTPBadRequest: HTTPBadRequest string string

text \<open>
  What an outbound call into the requests or mandrill library can raise: a \<open>KeyError\<close> or
  an exception of any other class. These libraries do not raise falcon's HTTP errors.
\<close>

datatype lib_error = LibKeyError string | LibError string

fun raised :: "lib_error \<Rightarrow> exn" where
  "raised (LibKeyError k) = KeyError k"
| "raised (LibError c) = OtherError c"

text \<open>
  What the process does to the outside is recorded as a list of events: a call of one of
  the two decorated provider functions (what \<open>mock.patch\<close> observes in the tests), a read
  of \<open>os.environ\<close>, the outbound requests, and log records.
\<close>

datatype event =
    is_Call: Call string
  | is_EnvRead: EnvRead string
  | is_HttpPost: HttpPost string "string \<times> string" "(string \<times> json) list"
  | is_MandrillSend: MandrillSend string "(string \<times> json) list"
  | is_Log: Log string string

section \<open>Circuit breaker\<close>

datatype breaker_state = Closed | Open | HalfOpen

record breaker =
  fail_counter :: nat
  state :: breaker_state
  last_failure :: nat

record breaker_cfg =
  fail_max :: nat
  reset_timeout :: nat
  listener :: string

text \<open>
  The process state: the environment variables, the current time, the two module-level
  breakers and the events emitted so far.
\<close>

record world =
  environ :: "string \<rightharpoonup> string"
  clock :: nat
  mailgun_breaker :: breaker
  mandrill_breaker :: breaker
  events :: "event list"

text \<open>
  What the two providers answer to one request: \<open>None\<close> when the outbound call returns
  normally, \<open>Some e\<close> when it raises \<open>raised e\<close> (for Mailgun, from \<open>requests.post\<close> or from
  \<open>resp.raise_for_status()\<close>; for Mandrill, from \<open>mandrill.Mandrill(api_key)\<close> or from
  \<open>messages.send\<close>).
\<close>

record network =
  mailgun_outcome :: "lib_error option"
  mandrill_outcome :: "lib_error option"

definition emit :: "event \<Rightarrow> world \<Rightarrow> world" where
  "emit e w = w\<lparr>events := events w @ [e]\<rparr>"

text \<open>Counters over the events, to say how often something happened.\<close>

definition calls :: "string \<Rightarrow> world \<Rightarrow> nat" where
  "calls f w = count_list (events w) (Call f)"

definition env_reads :: "world \<Rightarrow> nat" where
  "env_reads w = length (filter is_EnvRead (events w))"

definition http_posts :: "world \<Rightarrow> nat" where
  "http_posts w = length (filter is_HttpPost (events w))"

definition mandrill_sends :: "world \<Rightarrow> nat" where
  "mandrill_sends w = length (filter is_MandrillSend (events w))"

subsection \<open>LogListener\<close>

definition before_call :: "string \<Rightarrow> world \<Rightarrow> world" where
  "before_call breaker_name w =
     emit (Log ''INFO'' (''Attempting '' @ breaker_name @ '' circuit breaker'')) w"

definition failure :: "string \<Rightarrow> exn \<Rightarrow> world \<Rightarrow> world" where
  "failure breaker_name exc w =
     emit (Log ''ERROR'' (breaker_name @ '' circuit breaker failed'')) w"

definition success :: "string \<Rightarrow> world \<Rightarrow> world" where
  "success breaker_name w =
     emit (Log ''INFO'' (breaker_name @ '' circuit breaker call was successful.'')) w"

subsection \<open>The breaker's contract\<close>

text \<open>
  Modelled from the spec: \<open>pybreaker.CircuitBreaker\<close>, the imported class behind the two
  decorators, whose code is not among the source files. Sections 3 and 4.1 of the
  specification give its state (failure count, closed/open/half-open, last-failure
  timestamp) and its contract: while open, a call fails at once with a circuit-open error
  and the wrapped function is not invoked, until the reset timeout has elapsed; then the
  breaker lets a trial call through (half-open).
\<close>

definition breaker_admit :: "breaker_cfg \<Rightarrow> nat \<Rightarrow> breaker \<Rightarrow> breaker option" where
  "breaker_admit cfg now b =
     (case state b of
        Open \<Rightarrow>
          if now < last_failure b + reset_timeout cfg then None
          else Some (b\<lparr>state := HalfOpen\<rparr>)
      | Closed \<Rightarrow> Some b
      | HalfOpen \<Rightarrow> Some b)"

text \<open>
  Modelled from the spec: the success branch of \<open>pybreaker.CircuitBreaker.call\<close>
  (section 4.1: on success, resets the failure count and closes the gate).
\<close>

definition breaker_success :: "breaker \<Rightarrow> breaker" where
  "breaker_success b = b\<lparr>fail_counter := 0, state := Closed\<rparr>"

text \<open>
  Modelled from the spec: the failure branch of \<open>pybreaker.CircuitBreaker.call\<close>
  (sections 3 and 4.1: on failure, increments the failure count and opens the gate once
  the threshold is reached; a failed trial call in the half-open state re-opens it).
\<close>

definition breaker_failure :: "breaker_cfg \<Rightarrow> nat \<Rightarrow> breaker \<Rightarrow> breaker" where
  "breaker_failure cfg now b =
     b\<lparr>fail_counter := Suc (fail_counter b),
       state := (if state b = HalfOpen \<or> fail_max cfg \<le> Suc (fail_counter b)
                 then Open else state b),
       last_failure := now\<rparr>"

text \<open>
  Modelled from the spec: \<open>pybreaker.CircuitBreaker.call\<close> (section 4.1), with the
  listener notifications of \<open>LogListener\<close> around the invocation of the wrapped function.
  The breaker's state is passed and returned beside the rest of the process state; an
  error of the wrapped function is re-raised to the caller, and the failure is stamped
  with the time of the call. A call refused by an open breaker changes nothing and
  notifies no listener.
\<close>

definition breaker_call ::
  "breaker_cfg \<Rightarrow> (world \<Rightarrow> (exn + 'a) \<times> world) \<Rightarrow> breaker \<Rightarrow> world
     \<Rightarrow> (exn + 'a) \<times> breaker \<times> world" where
  "breaker_call cfg fn b w =
     (case breaker_admit cfg (clock w) b of
        None \<Rightarrow> (Inl CircuitBreakerError, b, w)
      | Some b1 \<Rightarrow>
          (case fn (before_call (listener cfg) w) of
             (Inr v, w1) \<Rightarrow> (Inr v, breaker_success b1, success (listener cfg) w1)
           | (Inl e, w1) \<Rightarrow>
               (Inl e, breaker_failure cfg (clock w) b1, failure (listener cfg) e w1)))"

text \<open>The two module-level breakers of \<open>main.py\<close>: \<open>fail_max=5, reset_timeout=60\<close>.\<close>

definition mailgun_breaker_cfg :: breaker_cfg where
  "mailgun_breaker_cfg = \<lparr>fail_max = 5, reset_timeout = 60, listener = ''mailgun''\<rparr>"

definition mandrill_breaker_cfg :: breaker_cfg where
  "mandrill_breaker_cfg = \<lparr>fail_max = 5, reset_timeout = 60, listener = ''mandrill''\<rparr>"

section \<open>Providers\<close>

text \<open>\<open>os.environ[name]\<close>: raises \<open>KeyError\<close> when the variable is unset.\<close>

definition environ_subscript :: "string \<Rightarrow> world \<Rightarrow> (exn + string) \<times> world" where
  "environ_subscript name w =
     (case environ w name of
        None \<Rightarrow> (Inl (KeyError name), emit (EnvRead name) w)
      | Some v \<Rightarrow> (Inr v, emit (EnvRead name) w))"

text \<open>The body of \<open>send_with_mailgun\<close>, before the decorator is applied.\<close>

definition send_with_mailgun_body ::
  "json \<Rightarrow> json \<Rightarrow> json \<Rightarrow> json \<Rightarrow> json \<Rightarrow> json \<Rightarrow> network \<Rightarrow> world
     \<Rightarrow> (exn + unit) \<times> world" where
  "send_with_mailgun_body sender receiver subject text html raise_error net w =
     (if truthy raise_error
      then (Inl (RuntimeError ''Forcing mailgun to fail to test fallback.''), w)
      else
        (case environ_subscript ''MAILGUN_DOMAIN'' w of
           (Inl e, w1) \<Rightarrow> (Inl e, w1)
         | (Inr domain, w1) \<Rightarrow>
             (case environ_subscript ''MAILGUN_API_KEY'' w1 of
                (Inl e, w2) \<Rightarrow> (Inl e, w2)
              | (Inr api_key, w2) \<Rightarrow>
                  (let body = [(''from'', sender), (''to'', receiver), (''subject'', subject),
                               (''text'', text), (''html'', html)];
                       w3 = emit (HttpPost (''https://api.mailgun.net/v3/'' @ domain @ ''/messages'')
                                    (''api'', api_key) body) w2
                   in case mailgun_outcome net of
                        Some e \<Rightarrow> (Inl (raised e), w3)
                      | None \<Rightarrow> (Inr (), w3)))))"

text \<open>\<open>@mailgun_breaker def send_with_mailgun\<close>: the name the dispatcher calls.\<close>

definition send_with_mailgun ::
  "json \<Rightarrow> json \<Rightarrow> json \<Rightarrow> json \<Rightarrow> json \<Rightarrow> json \<Rightarrow> network \<Rightarrow> world
     \<Rightarrow> (exn + unit) \<times> world" where
  "send_with_mailgun sender receiver subject text html raise_error net w =
     (let w0 = emit (Call ''send_with_mailgun'') w in
      case breaker_call mailgun_breaker_cfg
             (send_with_mailgun_body sender receiver subject text html raise_error net)
             (mailgun_breaker w0) w0 of
        (r, b, w1) \<Rightarrow> (r, w1\<lparr>mailgun_breaker := b\<rparr>))"

text \<open>The body of \<open>send_with_mandrill\<close>, before the decorator is applied.\<close>

definition send_with_mandrill_body ::
  "json \<Rightarrow> json \<Rightarrow> json \<Rightarrow> json \<Rightarrow> json \<Rightarrow> network \<Rightarrow> world \<Rightarrow> (exn + unit) \<times> world" where
  "send_with_mandrill_body sender receiver subject text html net w =
     (case environ_subscript ''MANDRILL_API_KEY'' w of
        (Inl e, w1) \<Rightarrow> (Inl e, w1)
      | (Inr api_key, w1) \<Rightarrow>
          (let body = [(''from_email'', sender), (''to'', JArr [JObj [(''email'', receiver)]]),
                       (''subject'', subject), (''text'', text), (''html'', html)];
               w2 = emit (MandrillSend api_key body) w1
           in case mandrill_outcome net of
                Some e \<Rightarrow> (Inl (raised e), w2)
              | None \<Rightarrow> (Inr (), w2)))"

text \<open>\<open>@mandrill_breaker def send_with_mandrill\<close>.\<close>

definition send_with_mandrill ::
  "json \<Rightarrow> json \<Rightarrow> json \<Rightarrow> json \<Rightarrow> json \<Rightarrow> network \<Rightarrow> world \<Rightarrow> (exn + unit) \<times> world" where
  "send_with_mandrill sender receiver subject text html net w =
     (let w0 = emit (Call ''send_with_mandrill'') w in
      case breaker_call mandrill_breaker_cfg
             (send_with_mandrill_body sender receiver subject text html net)
             (mandrill_breaker w0) w0 of
        (r, b, w1) \<Rightarrow> (r, w1\<lparr>mandrill_breaker := b\<rparr>))"

section \<open>Dispatcher\<close>

text \<open>\<open>send\<close>: Mailgun first; the bare \<open>except:\<close> sends through Mandrill on any exception.\<close>

definition send ::
  "json \<Rightarrow> json \<Rightarrow> json \<Rightarrow> json \<Rightarrow> json \<Rightarrow> json \<Rightarrow> network \<Rightarrow> world
     \<Rightarrow> (exn + unit) \<times> world" where
  "send sender receiver subject text html fallback net w =
     (case send_with_mailgun sender receiver subject text html fallback net w of
        (Inr u, w1) \<Rightarrow> (Inr u, w1)
      | (Inl e, w1) \<Rightarrow> send_with_mandrill sender receiver subject text html net w1)"

section \<open>Request handler\<close>

record emails_resource =
  api_key :: "string option"

text \<open>
  \<open>EmailsResource.__init__\<close>: \<open>api_key or os.getenv('API_KEY')\<close>. An argument that is
  \<open>None\<close> or the empty string is falsy, so the environment decides; \<open>os.getenv\<close> gives
  \<open>None\<close> for an unset variable.
\<close>

definition EmailsResource_init :: "string option \<Rightarrow> (string \<rightharpoonup> string) \<Rightarrow> emails_resource" where
  "EmailsResource_init key env =
     \<lparr>api_key = (case key of
                   Some s \<Rightarrow> if s \<noteq> [] then Some s else env ''API_KEY''
                 | None \<Rightarrow> env ''API_KEY'')\<rparr>"

text \<open>\<open>doc.get(k)\<close>: \<open>None\<close> (JSON null) for a missing key.\<close>

definition dict_get :: "doc \<Rightarrow> string \<Rightarrow> json" where
  "dict_get d k = (case d k of None \<Rightarrow> JNull | Some v \<Rightarrow> v)"

text \<open>\<open>doc[k]\<close>: raises \<open>KeyError\<close> for a missing key.\<close>

definition subscript :: "doc \<Rightarrow> string \<Rightarrow> exn + json" where
  "subscript d k = (case d k of None \<Rightarrow> Inl (KeyError k) | Some v \<Rightarrow> Inr v)"

text \<open>
  Python's \<open>!=\<close> between a JSON value and the configured secret, which is a string or
  \<open>None\<close>.
\<close>

fun key_differs :: "json \<Rightarrow> string option \<Rightarrow> bool" where
  "key_differs JNull None = False"
| "key_differs (JStr s) (Some t) = (s \<noteq> t)"
| "key_differs _ _ = True"

text \<open>
  \<open>str(exc)\<close> for a \<open>KeyError\<close> is the \<open>repr\<close> of the key: the key between single quotes,
  for a key without quotes, backslashes or control characters (all keys that
  \<open>main.py\<close> looks up are such).
\<close>

definition str_KeyError :: "string \<Rightarrow> string" where
  "str_KeyError k = CHR 0x27 # k @ [CHR 0x27]"

definition HTTP_204 :: string where
  "HTTP_204 = ''204 No Content''"

text \<open>
  The \<open>try\<close> block of \<open>on_post\<close>: the keyword arguments of \<open>send\<close> are evaluated in the
  order written, then \<open>send\<close> is called.
\<close>

definition on_post_try :: "doc \<Rightarrow> network \<Rightarrow> world \<Rightarrow> (exn + unit) \<times> world" where
  "on_post_try d net w =
     (case subscript d ''sender'' of
        Inl e \<Rightarrow> (Inl e, w)
      | Inr sender \<Rightarrow>
     (case subscript d ''receiver'' of
        Inl e \<Rightarrow> (Inl e, w)
      | Inr receiver \<Rightarrow>
     (case subscript d ''subject'' of
        Inl e \<Rightarrow> (Inl e, w)
      | Inr subject \<Rightarrow>
     (case subscript d ''text'' of
        Inl e \<Rightarrow> (Inl e, w)
      | Inr text \<Rightarrow>
     (case subscript d ''html'' of
        Inl e \<Rightarrow> (Inl e, w)
      | Inr html \<Rightarrow>
          send sender receiver subject text html (dict_get d ''fallback'') net w)))))"

text \<open>
  \<open>EmailsResource.on_post\<close>, on the decoded body \<open>req.context['doc']\<close>. The result is the
  exception that leaves the handler, or the status it stores in the response. The two
  \<open>logger.exception\<close> calls are recorded with their message templates.
\<close>

definition on_post :: "emails_resource \<Rightarrow> doc \<Rightarrow> network \<Rightarrow> world \<Rightarrow> (exn + string) \<times> world" where
  "on_post self d net w =
     (if key_differs (dict_get d ''key'') (api_key self) then (Inl HTTPNotFound, w)
      else
        (case on_post_try d net w of
           (Inr u, w1) \<Rightarrow> (Inr HTTP_204, w1)
         | (Inl (KeyError k), w1) \<Rightarrow>
             (Inl (HTTPBadRequest ''Missing field'' (str_KeyError k @ '' is missing from the body.'')),
              emit (Log ''ERROR'' ''Missing field from body'') w1)
         | (Inl e, w1) \<Rightarrow> (Inl e, emit (Log ''ERROR'' ''Unexpected exception.'') w1)))"

text \<open>
  Modelled from the spec: the status line the web framework (falcon, not among the source
  files) sends for the handler's outcome, after section 6 of the specification: the
  handler's own status (200 when it is not the 204 line, the only one \<open>on_post\<close> stores),
  404 for \<open>HTTPNotFound\<close>, 400 for \<open>HTTPBadRequest\<close>, and 500 for any other exception that
  leaves the handler.
\<close>

definition http_status :: "exn + string \<Rightarrow> nat" where
  "http_status r =
     (case r of
        Inr s \<Rightarrow> (if s = HTTP_204 then 204 else 200)
      | Inl HTTPNotFound \<Rightarrow> 404
      | Inl (HTTPBadRequest title description) \<Rightarrow> 400
      | Inl e \<Rightarrow> 500)"

section \<open>Sequences of calls and requests\<close>


text \<open>What a call that fails does to the breaker, at time \<open>now\<close>.\<close>

definition breaker_after_failure :: "breaker_cfg \<Rightarrow> nat \<Rightarrow> breaker \<Rightarrow> breaker" where
  "breaker_after_failure cfg now b =
     (case breaker_admit cfg now b of
        None \<Rightarrow> b
      | Some b1 \<Rightarrow> breaker_failure cfg now b1)"

text \<open>
  Successive requests to the handler: the request \<open>(t, d, net)\<close> arrives at time \<open>t\<close> with
  body \<open>d\<close> while the providers answer as \<open>net\<close> says. The result is the process state
  after the last request.
\<close>

fun handle_requests :: "emails_resource \<Rightarrow> (nat \<times> doc \<times> network) list \<Rightarrow> world \<Rightarrow> world" where
  "handle_requests self [] w = w"
| "handle_requests self ((t, d, net) # rs) w =
     handle_requests self rs (snd (on_post self d net (w\<lparr>clock := t\<rparr>)))"

text \<open>A request with the correct key and all five required fields.\<close>

definition authorized_complete :: "emails_resource \<Rightarrow> doc \<Rightarrow> bool" where
  "authorized_complete self d \<longleftrightarrow>
     \<not> key_differs (dict_get d ''key'') (api_key self)
     \<and> d ''sender'' \<noteq> None \<and> d ''receiver'' \<noteq> None \<and> d ''subject'' \<noteq> None
     \<and> d ''text'' \<noteq> None \<and> d ''html'' \<noteq> None"

section \<open>Fixtures\<close>

text \<open>The request body and the resource of \<open>tests.py\<close>, and a freshly started process.\<close>

definition request_body :: doc where
  "request_body = map_of
     [(''sender'', JStr ''test@test.com''), (''receiver'', JStr ''test@test.com''),
      (''subject'', JStr ''Example''), (''text'', JStr ''A text example''),
      (''html'', JStr ''A html example'')]"

definition authorized_body :: doc where
  "authorized_body = request_body(''key'' \<mapsto> JStr ''abc'')"

definition incomplete_body :: doc where
  "incomplete_body = map_of
     [(''key'', JStr ''abc''), (''sender'', JStr ''test@test.com''),
      (''html'', JStr ''A html example'')]"

definition test_resource :: emails_resource where
  "test_resource = EmailsResource_init (Some ''abc'') Map.empty"

definition fresh_breaker :: breaker where
  "fresh_breaker = \<lparr>fail_counter = 0, state = Closed, last_failure = 0\<rparr>"

definition configured_env :: "string \<rightharpoonup> string" where
  "configured_env = map_of
     [(''MAILGUN_DOMAIN'', ''mg.example.org''), (''MAILGUN_API_KEY'', ''key-1''),
      (''MANDRILL_API_KEY'', ''key-2'')]"

text \<open>A deployment in which \<open>MANDRILL_API_KEY\<close> (and \<open>API_KEY\<close>) is not set.\<close>

definition mailgun_only_env :: "string \<rightharpoonup> string" where
  "mailgun_only_env = map_of
     [(''MAILGUN_DOMAIN'', ''mg.example.org''), (''MAILGUN_API_KEY'', ''key-1'')]"

definition start :: "(string \<rightharpoonup> string) \<Rightarrow> world" where
  "start env = \<lparr>environ = env, clock = 0, mailgun_breaker = fresh_breaker,
                 mandrill_breaker = fresh_breaker, events = []\<rparr>"

definition providers_up :: network where
  "providers_up = \<lparr>mailgun_outcome = None, mandrill_outcome = None\<rparr>"

definition providers_down :: network where
  "providers_down = \<lparr>mailgun_outcome = Some (LibError ''HTTPError''),
                      mandrill_outcome = Some (LibError ''Error'')\<rparr>"

definition forced_body :: doc where
  "forced_body = authorized_body(''fallback'' \<mapsto> JBool True)"

definition forced_requests :: "(nat \<times> doc \<times> network) list" where
  "forced_requests =
     [(1, forced_body, providers_up), (2, forced_body, providers_up),
      (3, forced_body, providers_up), (4, forced_body, providers_up),
      (5, forced_body, providers_up)]"



definition at_time :: "nat \<Rightarrow> world \<Rightarrow> world" where
  "at_time t w = w\<lparr>clock := t\<rparr>"

section \<open>How a provider call changes the process state\<close>

lemmas world_defs = emit_def before_call_def failure_def success_def
lemmas count_defs = calls_def env_reads_def http_posts_def mandrill_sends_def

lemma mailgun_body_world:
  "snd (send_with_mailgun_body sender receiver subject text html raise_error net w)
      \<lparr>events := events w\<rparr> = w
   \<and> (\<exists>es. events (snd (send_with_mailgun_body sender receiver subject text html raise_error net w))
             = events w @ es
           \<and> list_all (\<lambda>e. is_EnvRead e \<or> is_HttpPost e) es)"
  by (auto simp: send_with_mailgun_body_def environ_subscript_def emit_def Let_def
      split: option.splits if_splits)

lemma mandrill_body_world:
  "snd (send_with_mandrill_body sender receiver subject text html net w)
      \<lparr>events := events w\<rparr> = w
   \<and> (\<exists>es. events (snd (send_with_mandrill_body sender receiver subject text html net w))
             = events w @ es
           \<and> list_all (\<lambda>e. is_EnvRead e \<or> is_MandrillSend e) es)"
  by (auto simp: send_with_mandrill_body_def environ_subscript_def emit_def Let_def
      split: option.splits if_splits)

lemma breaker_call_world:
  assumes fn: "\<And>w. snd (fn w)\<lparr>events := events w\<rparr> = w
      \<and> (\<exists>es. events (snd (fn w)) = events w @ es \<and> list_all P es)"
  shows "snd (snd (breaker_call cfg fn b w))\<lparr>events := events w\<rparr> = w
     \<and> (\<exists>es. events (snd (snd (breaker_call cfg fn b w))) = events w @ es
            \<and> list_all (\<lambda>e. P e \<or> is_Log e) es)"
proof (cases "breaker_admit cfg (clock w) b")
  case None
  then have "snd (snd (breaker_call cfg fn b w)) = w" by (simp add: breaker_call_def)
  then show ?thesis by simp
next
  case (Some b1)
  let ?w0 = "before_call (listener cfg) w"
  let ?w' = "snd (snd (breaker_call cfg fn b w))"
  obtain r1 w1 where rw: "fn ?w0 = (r1, w1)" by (cases "fn ?w0")
  from fn [of ?w0] rw obtain es where
    same: "w1\<lparr>events := events ?w0\<rparr> = ?w0" and
    es: "events w1 = events ?w0 @ es" "list_all P es" by auto
  from same have w1: "w1\<lparr>events := events w\<rparr> = w"
    by (cases w1, cases w) (simp add: world_defs)
  have "\<exists>l. events ?w0 = events w @ [l] \<and> is_Log l"
    by (simp add: world_defs)
  then obtain l0 where l0: "events ?w0 = events w @ [l0]" "is_Log l0" by blast
  have "\<exists>l. ?w' = w1\<lparr>events := events w1 @ [l]\<rparr> \<and> is_Log l"
    using Some rw by (cases r1) (auto simp: breaker_call_def world_defs)
  then obtain l where l: "?w' = w1\<lparr>events := events w1 @ [l]\<rparr>" "is_Log l" by blast
  have "events ?w' = events w @ (l0 # es @ [l])"
    using l(1) es(1) l0(1) by simp
  moreover have "list_all (\<lambda>e. P e \<or> is_Log e) (l0 # es @ [l])"
    using es(2) l(2) l0(2) by (simp add: list_all_iff)
  moreover have "?w'\<lparr>events := events w\<rparr> = w"
    using l(1) w1 by simp
  ultimately show ?thesis by blast
qed

lemma send_with_mailgun_world:
  assumes "send_with_mailgun sender receiver subject text html raise_error net w = (r, w1)"
  shows "w1\<lparr>events := events w, mailgun_breaker := mailgun_breaker w\<rparr> = w"
    and "\<exists>es. events w1 = events w @ Call ''send_with_mailgun'' # es
          \<and> list_all (\<lambda>e. (is_EnvRead e \<or> is_HttpPost e) \<or> is_Log e) es"
proof -
  let ?w0 = "emit (Call ''send_with_mailgun'') w"
  let ?fn = "send_with_mailgun_body sender receiver subject text html raise_error net"
  let ?bc = "breaker_call mailgun_breaker_cfg ?fn (mailgun_breaker ?w0) ?w0"
  have "snd (snd ?bc)\<lparr>events := events ?w0\<rparr> = ?w0
     \<and> (\<exists>es. events (snd (snd ?bc)) = events ?w0 @ es
            \<and> list_all (\<lambda>e. (is_EnvRead e \<or> is_HttpPost e) \<or> is_Log e) es)"
    by (rule breaker_call_world) (rule mailgun_body_world)
  then obtain es where
    same: "snd (snd ?bc)\<lparr>events := events ?w0\<rparr> = ?w0" and
    es: "events (snd (snd ?bc)) = events ?w0 @ es"
        "list_all (\<lambda>e. (is_EnvRead e \<or> is_HttpPost e) \<or> is_Log e) es"
    by blast
  from assms have w1: "w1 = (snd (snd ?bc))\<lparr>mailgun_breaker := fst (snd ?bc)\<rparr>"
    by (simp add: send_with_mailgun_def Let_def split: prod.splits)
  from same have "snd (snd ?bc)\<lparr>events := events w\<rparr> = w"
    by (cases "snd (snd ?bc)", cases w) (simp add: emit_def)
  with w1 show "w1\<lparr>events := events w, mailgun_breaker := mailgun_breaker w\<rparr> = w"
    by (cases "snd (snd ?bc)", cases w) simp
  from w1 es show "\<exists>es. events w1 = events w @ Call ''send_with_mailgun'' # es
          \<and> list_all (\<lambda>e. (is_EnvRead e \<or> is_HttpPost e) \<or> is_Log e) es"
    by (simp add: emit_def)
qed

lemma send_with_mandrill_world:
  assumes "send_with_mandrill sender receiver subject text html net w = (r, w1)"
  shows "w1\<lparr>events := events w, mandrill_breaker := mandrill_breaker w\<rparr> = w"
    and "\<exists>es. events w1 = events w @ Call ''send_with_mandrill'' # es
          \<and> list_all (\<lambda>e. (is_EnvRead e \<or> is_MandrillSend e) \<or> is_Log e) es"
proof -
  let ?w0 = "emit (Call ''send_with_mandrill'') w"
  let ?fn = "send_with_mandrill_body sender receiver subject text html net"
  let ?bc = "breaker_call mandrill_breaker_cfg ?fn (mandrill_breaker ?w0) ?w0"
  have "snd (snd ?bc)\<lparr>events := events ?w0\<rparr> = ?w0
     \<and> (\<exists>es. events (snd (snd ?bc)) = events ?w0 @ es
            \<and> list_all (\<lambda>e. (is_EnvRead e \<or> is_MandrillSend e) \<or> is_Log e) es)"
    by (rule breaker_call_world) (rule mandrill_body_world)
  then obtain es where
    same: "snd (snd ?bc)\<lparr>events := events ?w0\<rparr> = ?w0" and
    es: "events (snd (snd ?bc)) = events ?w0 @ es"
        "list_all (\<lambda>e. (is_EnvRead e \<or> is_MandrillSend e) \<or> is_Log e) es"
    by blast
  from assms have w1: "w1 = (snd (snd ?bc))\<lparr>mandrill_breaker := fst (snd ?bc)\<rparr>"
    by (simp add: send_with_mandrill_def Let_def split: prod.splits)
  from same have "snd (snd ?bc)\<lparr>events := events w\<rparr> = w"
    by (cases "snd (snd ?bc)", cases w) (simp add: emit_def)
  with w1 show "w1\<lparr>events := events w, mandrill_breaker := mandrill_breaker w\<rparr> = w"
    by (cases "snd (snd ?bc)", cases w) simp
  from w1 es show "\<exists>es. events w1 = events w @ Call ''send_with_mandrill'' # es
          \<and> list_all (\<lambda>e. (is_EnvRead e \<or> is_MandrillSend e) \<or> is_Log e) es"
    by (simp add: emit_def)
qed


lemmas fixture_defs = request_body_def authorized_body_def test_resource_def fresh_breaker_def incomplete_body_def mailgun_only_env_def
  configured_env_def start_def providers_up_def providers_down_def EmailsResource_init_def
lemmas model_defs = send_with_mailgun_def send_with_mailgun_body_def send_with_mandrill_def
  send_with_mandrill_body_def environ_subscript_def breaker_call_def breaker_admit_def
  breaker_success_def breaker_failure_def mailgun_breaker_cfg_def mandrill_breaker_cfg_def
  send_def on_post_def on_post_try_def subscript_def dict_get_def http_status_def HTTP_204_def
  str_KeyError_def

lemma count_list_no_call:
  "list_all (\<lambda>e. \<not> is_Call e) es \<Longrightarrow> count_list es (Call f) = 0"
  by (induction es) auto

lemma filter_none:
  "list_all (\<lambda>e. \<not> Q e) es \<Longrightarrow> filter Q es = []"
  by (induction es) auto

lemma calls_emit_Log [simp]: "calls f (emit (Log lvl msg) w) = calls f w"
  by (simp add: calls_def emit_def)

lemma send_with_mailgun_counts:
  assumes "send_with_mailgun sender receiver subject text html raise_error net w = (r, w1)"
  shows "calls ''send_with_mailgun'' w1 = Suc (calls ''send_with_mailgun'' w)"
    and "calls ''send_with_mandrill'' w1 = calls ''send_with_mandrill'' w"
    and "mandrill_sends w1 = mandrill_sends w"
proof -
  from send_with_mailgun_world(2) [OF assms] obtain es where
    ev: "events w1 = events w @ Call ''send_with_mailgun'' # es" and
    es: "list_all (\<lambda>e. (is_EnvRead e \<or> is_HttpPost e) \<or> is_Log e) es" by blast
  from es have no_call: "list_all (\<lambda>e. \<not> is_Call e) es"
    and no_send: "list_all (\<lambda>e. \<not> is_MandrillSend e) es"
    by (auto simp: list_all_iff)
  show "calls ''send_with_mailgun'' w1 = Suc (calls ''send_with_mailgun'' w)"
    using ev count_list_no_call [OF no_call] by (simp add: calls_def)
  show "calls ''send_with_mandrill'' w1 = calls ''send_with_mandrill'' w"
    using ev count_list_no_call [OF no_call] by (simp add: calls_def)
  show "mandrill_sends w1 = mandrill_sends w"
    using ev filter_none [OF no_send] by (simp add: mandrill_sends_def)
qed

lemma send_with_mandrill_counts:
  assumes "send_with_mandrill sender receiver subject text html net w = (r, w1)"
  shows "calls ''send_with_mandrill'' w1 = Suc (calls ''send_with_mandrill'' w)"
    and "calls ''send_with_mailgun'' w1 = calls ''send_with_mailgun'' w"
    and "http_posts w1 = http_posts w"
proof -
  from send_with_mandrill_world(2) [OF assms] obtain es where
    ev: "events w1 = events w @ Call ''send_with_mandrill'' # es" and
    es: "list_all (\<lambda>e. (is_EnvRead e \<or> is_MandrillSend e) \<or> is_Log e) es" by blast
  from es have no_call: "list_all (\<lambda>e. \<not> is_Call e) es"
    and no_post: "list_all (\<lambda>e. \<not> is_HttpPost e) es"
    by (auto simp: list_all_iff)
  show "calls ''send_with_mandrill'' w1 = Suc (calls ''send_with_mandrill'' w)"
    using ev count_list_no_call [OF no_call] by (simp add: calls_def)
  show "calls ''send_with_mailgun'' w1 = calls ''send_with_mailgun'' w"
    using ev count_list_no_call [OF no_call] by (simp add: calls_def)
  show "http_posts w1 = http_posts w"
    using ev filter_none [OF no_post] by (simp add: http_posts_def)
qed

lemma send_with_mandrill_keeps:
  assumes "send_with_mandrill sender receiver subject text html net w = (r, w1)"
  shows "mailgun_breaker w1 = mailgun_breaker w" and "clock w1 = clock w"
    and "environ w1 = environ w"
  using send_with_mandrill_world(1) [OF assms] by (cases w1, cases w, simp)+

lemma send_with_mailgun_keeps:
  assumes "send_with_mailgun sender receiver subject text html raise_error net w = (r, w1)"
  shows "mandrill_breaker w1 = mandrill_breaker w" and "clock w1 = clock w"
    and "environ w1 = environ w"
  using send_with_mailgun_world(1) [OF assms] by (cases w1, cases w, simp)+

text \<open>A forced failure, call by call.\<close>

lemma forced_call:
  assumes "truthy raise_error"
  shows "send_with_mailgun sender receiver subject text html raise_error net w =
    (case breaker_admit mailgun_breaker_cfg (clock w) (mailgun_breaker w) of
       None \<Rightarrow> (Inl CircuitBreakerError, emit (Call ''send_with_mailgun'') w)
     | Some b1 \<Rightarrow>
         (Inl (RuntimeError ''Forcing mailgun to fail to test fallback.''),
          (failure ''mailgun'' (RuntimeError ''Forcing mailgun to fail to test fallback.'')
             (before_call ''mailgun'' (emit (Call ''send_with_mailgun'') w)))
          \<lparr>mailgun_breaker := breaker_failure mailgun_breaker_cfg (clock w) b1\<rparr>))"
  using assms
  by (simp add: send_with_mailgun_def send_with_mailgun_body_def breaker_call_def Let_def
      world_defs mailgun_breaker_cfg_def split: option.splits)

lemma forced_call_raises:
  "truthy raise_error \<Longrightarrow>
   isl (fst (send_with_mailgun sender receiver subject text html raise_error net w))"
  by (simp add: forced_call split: option.splits)

lemma on_post_try_fields:
  assumes "d ''sender'' = Some sender" "d ''receiver'' = Some receiver"
    "d ''subject'' = Some subject" "d ''text'' = Some text" "d ''html'' = Some html"
  shows "on_post_try d net w = send sender receiver subject text html (dict_get d ''fallback'') net w"
  using assms by (simp add: on_post_try_def subscript_def)

text \<open>
  Claim C2. For a request with the correct key and all five required fields, if the call of
  \<open>send_with_mailgun\<close> returns without raising, the handler stores 204 No Content and
  \<open>send_with_mandrill\<close> is not invoked: the process state after the handler is the one
  the primary call left, with no further call of \<open>send_with_mandrill\<close> and no request to
  Mandrill.
\<close>

theorem primary_success_skips_secondary:
  assumes key: "\<not> key_differs (dict_get d ''key'') (api_key self)"
    and fields: "d ''sender'' = Some sender" "d ''receiver'' = Some receiver"
      "d ''subject'' = Some subject" "d ''text'' = Some text" "d ''html'' = Some html"
    and primary: "send_with_mailgun sender receiver subject text html (dict_get d ''fallback'') net w
                    = (Inr (), w1)"
  shows "on_post self d net w = (Inr HTTP_204, w1)
       \<and> http_status (fst (on_post self d net w)) = 204
       \<and> calls ''send_with_mandrill'' (snd (on_post self d net w)) = calls ''send_with_mandrill'' w
       \<and> mandrill_sends (snd (on_post self d net w)) = mandrill_sends w"
proof -
  have "send sender receiver subject text html (dict_get d ''fallback'') net w = (Inr (), w1)"
    using primary by (simp add: send_def)
  then have post: "on_post self d net w = (Inr HTTP_204, w1)"
    using key on_post_try_fields [OF fields] by (simp add: on_post_def)
  moreover have "http_status (Inr HTTP_204) = 204" by (simp add: http_status_def)
  ultimately show ?thesis
    using send_with_mailgun_counts(2,3) [OF primary] by simp
qed

theorem primary_success_skips_secondary_witness:
  "\<not> key_differs (dict_get authorized_body ''key'') (api_key test_resource)
   \<and> fst (send_with_mailgun (JStr ''test@test.com'') (JStr ''test@test.com'') (JStr ''Example'')
            (JStr ''A text example'') (JStr ''A html example'')
            (dict_get authorized_body ''fallback'') providers_up (start configured_env)) = Inr ()
   \<and> fst (on_post test_resource authorized_body providers_up (start configured_env)) = Inr HTTP_204
   \<and> calls ''send_with_mandrill''
        (snd (on_post test_resource authorized_body providers_up (start configured_env))) = 0"
proof -
  let ?call = "send_with_mailgun (JStr ''test@test.com'') (JStr ''test@test.com'') (JStr ''Example'')
            (JStr ''A text example'') (JStr ''A html example'')
            (dict_get authorized_body ''fallback'') providers_up (start configured_env)"
  have key: "\<not> key_differs (dict_get authorized_body ''key'') (api_key test_resource)"
    by (simp add: fixture_defs dict_get_def)
  have fields: "authorized_body ''sender'' = Some (JStr ''test@test.com'')"
    "authorized_body ''receiver'' = Some (JStr ''test@test.com'')"
    "authorized_body ''subject'' = Some (JStr ''Example'')"
    "authorized_body ''text'' = Some (JStr ''A text example'')"
    "authorized_body ''html'' = Some (JStr ''A html example'')"
    by (simp_all add: fixture_defs)
  have ok: "fst ?call = Inr ()"
    by (simp add: fixture_defs model_defs world_defs Let_def)
  then have primary: "?call = (Inr (), snd ?call)"
    by (metis prod.collapse)
  have z: "calls ''send_with_mandrill'' (start configured_env) = 0"
    by (simp add: calls_def start_def)
  note t = primary_success_skips_secondary [OF key fields primary]
  from t have a: "fst (on_post test_resource authorized_body providers_up (start configured_env))
      = Inr HTTP_204" by simp
  from t have c: "calls ''send_with_mandrill''
        (snd (on_post test_resource authorized_body providers_up (start configured_env)))
      = calls ''send_with_mandrill'' (start configured_env)" by blast
  show ?thesis using key ok a c z by simp
qed


text \<open>
  Claim C1. For a request with the correct key and all five required fields, if the call of
  \<open>send_with_mailgun\<close> raises, or \<open>fallback\<close> is true, then \<open>send_with_mandrill\<close> is
  invoked exactly once, and if that call returns without raising the handler stores
  204 No Content.
\<close>

theorem primary_failure_falls_back_once:
  assumes key: "\<not> key_differs (dict_get d ''key'') (api_key self)"
    and fields: "d ''sender'' = Some sender" "d ''receiver'' = Some receiver"
      "d ''subject'' = Some subject" "d ''text'' = Some text" "d ''html'' = Some html"
    and primary: "isl (fst (send_with_mailgun sender receiver subject text html
                        (dict_get d ''fallback'') net w))
                  \<or> truthy (dict_get d ''fallback'')"
  shows "calls ''send_with_mandrill'' (snd (on_post self d net w))
           = Suc (calls ''send_with_mandrill'' w)
       \<and> (\<not> isl (fst (send_with_mandrill sender receiver subject text html net
                  (snd (send_with_mailgun sender receiver subject text html
                         (dict_get d ''fallback'') net w))))
          \<longrightarrow> fst (on_post self d net w) = Inr HTTP_204
            \<and> http_status (fst (on_post self d net w)) = 204)"
proof -
  let ?p = "send_with_mailgun sender receiver subject text html (dict_get d ''fallback'') net w"
  from primary have "isl (fst ?p)" using forced_call_raises by blast
  then obtain e w1 where p: "?p = (Inl e, w1)" by (cases ?p) (auto simp: isl_def)
  obtain r2 w2 where s: "send_with_mandrill sender receiver subject text html net w1 = (r2, w2)"
    by (cases "send_with_mandrill sender receiver subject text html net w1")
  have tr: "on_post_try d net w = (r2, w2)"
    using on_post_try_fields [OF fields] p s by (simp add: send_def)
  have c2: "calls ''send_with_mandrill'' w2 = Suc (calls ''send_with_mandrill'' w)"
    using send_with_mandrill_counts(1) [OF s] send_with_mailgun_counts(2) [OF p] by simp
  have "calls ''send_with_mandrill'' (snd (on_post self d net w)) = calls ''send_with_mandrill'' w2"
    using key tr by (auto simp: on_post_def split: sum.splits exn.splits)
  moreover have "\<not> isl r2 \<longrightarrow> fst (on_post self d net w) = Inr HTTP_204"
    using key tr by (auto simp: on_post_def split: sum.splits exn.splits)
  moreover have "http_status (Inr HTTP_204) = 204" by (simp add: http_status_def)
  ultimately show ?thesis using c2 p s by simp
qed

theorem primary_failure_falls_back_once_witness:
  "\<not> key_differs (dict_get (authorized_body(''fallback'' \<mapsto> JBool True)) ''key'')
       (api_key test_resource)
   \<and> truthy (dict_get (authorized_body(''fallback'' \<mapsto> JBool True)) ''fallback'')
   \<and> calls ''send_with_mandrill''
        (snd (on_post test_resource (authorized_body(''fallback'' \<mapsto> JBool True)) providers_up
               (start configured_env))) = Suc 0
   \<and> fst (on_post test_resource (authorized_body(''fallback'' \<mapsto> JBool True)) providers_up
            (start configured_env)) = Inr HTTP_204"
proof -
  let ?d = "authorized_body(''fallback'' \<mapsto> JBool True)"
  let ?p = "send_with_mailgun (JStr ''test@test.com'') (JStr ''test@test.com'') (JStr ''Example'')
            (JStr ''A text example'') (JStr ''A html example'')
            (dict_get ?d ''fallback'') providers_up (start configured_env)"
  have key: "\<not> key_differs (dict_get ?d ''key'') (api_key test_resource)"
    by (simp add: fixture_defs dict_get_def)
  have fields: "?d ''sender'' = Some (JStr ''test@test.com'')"
    "?d ''receiver'' = Some (JStr ''test@test.com'')"
    "?d ''subject'' = Some (JStr ''Example'')"
    "?d ''text'' = Some (JStr ''A text example'')"
    "?d ''html'' = Some (JStr ''A html example'')"
    by (simp_all add: fixture_defs)
  have forced: "truthy (dict_get ?d ''fallback'')"
    by (simp add: dict_get_def)
  then have primary: "isl (fst ?p) \<or> truthy (dict_get ?d ''fallback'')" by simp
  have secondary: "\<not> isl (fst (send_with_mandrill (JStr ''test@test.com'') (JStr ''test@test.com'')
       (JStr ''Example'') (JStr ''A text example'') (JStr ''A html example'') providers_up (snd ?p)))"
    by (simp add: fixture_defs model_defs world_defs Let_def)
  have z: "calls ''send_with_mandrill'' (start configured_env) = 0"
    by (simp add: calls_def start_def)
  note t = primary_failure_falls_back_once [OF key fields primary]
  from t z have c: "calls ''send_with_mandrill'' (snd (on_post test_resource ?d providers_up
               (start configured_env))) = Suc 0" by simp
  from t secondary have a: "fst (on_post test_resource ?d providers_up (start configured_env))
      = Inr HTTP_204" by blast
  show ?thesis using key forced c a by blast
qed


text \<open>
  Claim C6. For a request with the correct key in which at least one of sender, receiver,
  subject, text, html is missing, the handler raises \<open>HTTPBadRequest\<close> (status 400) whose
  description names the first missing field in that order; no provider is called.
\<close>

theorem missing_field_bad_request:
  assumes key: "\<not> key_differs (dict_get d ''key'') (api_key self)"
    and missing: "find (\<lambda>k. d k = None) [''sender'', ''receiver'', ''subject'', ''text'', ''html'']
                    = Some f"
  shows "on_post self d net w =
           (Inl (HTTPBadRequest ''Missing field'' (str_KeyError f @ '' is missing from the body.'')),
            emit (Log ''ERROR'' ''Missing field from body'') w)
       \<and> http_status (fst (on_post self d net w)) = 400"
proof -
  have "on_post_try d net w = (Inl (KeyError f), w)"
    using missing by (auto simp: on_post_try_def subscript_def split: if_splits option.splits)
  then have "on_post self d net w =
           (Inl (HTTPBadRequest ''Missing field'' (str_KeyError f @ '' is missing from the body.'')),
            emit (Log ''ERROR'' ''Missing field from body'') w)"
    using key by (simp add: on_post_def)
  then show ?thesis by (simp add: http_status_def)
qed

theorem missing_field_bad_request_witness:
  "\<not> key_differs (dict_get incomplete_body ''key'') (api_key test_resource)
   \<and> find (\<lambda>k. incomplete_body k = None) [''sender'', ''receiver'', ''subject'', ''text'', ''html'']
       = Some ''receiver''
   \<and> fst (on_post test_resource incomplete_body providers_up (start configured_env))
      = Inl (HTTPBadRequest ''Missing field'' '''receiver' is missing from the body.'')
   \<and> http_status (fst (on_post test_resource incomplete_body providers_up (start configured_env)))
      = 400"
proof -
  have key: "\<not> key_differs (dict_get incomplete_body ''key'') (api_key test_resource)"
    by (simp add: fixture_defs incomplete_body_def dict_get_def)
  have missing: "find (\<lambda>k. incomplete_body k = None)
      [''sender'', ''receiver'', ''subject'', ''text'', ''html''] = Some ''receiver''"
    by (simp add: incomplete_body_def)
  note t = missing_field_bad_request [OF key missing, of providers_up "start configured_env"]
  from t have a: "fst (on_post test_resource incomplete_body providers_up (start configured_env))
      = Inl (HTTPBadRequest ''Missing field'' '''receiver' is missing from the body.'')"
    by (simp add: str_KeyError_def)
  from t have b: "http_status (fst (on_post test_resource incomplete_body providers_up
      (start configured_env))) = 400" by blast
  show ?thesis using key missing a b by blast
qed


text \<open>
  Claim C7. With a true \<open>raise_error\<close> the primary provider function raises its
  \<open>RuntimeError\<close> before anything else happens: the function body leaves the process
  state untouched, and the decorated call fails without reading an environment variable
  and without an HTTP request.
\<close>

theorem forced_failure_before_network:
  assumes "truthy raise_error"
  shows "send_with_mailgun_body sender receiver subject text html raise_error net w
           = (Inl (RuntimeError ''Forcing mailgun to fail to test fallback.''), w)
       \<and> isl (fst (send_with_mailgun sender receiver subject text html raise_error net w))
       \<and> env_reads (snd (send_with_mailgun sender receiver subject text html raise_error net w))
           = env_reads w
       \<and> http_posts (snd (send_with_mailgun sender receiver subject text html raise_error net w))
           = http_posts w"
  using assms
  by (simp add: forced_call send_with_mailgun_body_def world_defs count_defs
      split: option.splits)

theorem forced_failure_before_network_witness:
  "truthy (JBool True)
   \<and> send_with_mailgun_body (JStr ''a'') (JStr ''b'') (JStr ''c'') (JStr ''d'') (JStr ''e'')
        (JBool True) providers_up (start configured_env)
      = (Inl (RuntimeError ''Forcing mailgun to fail to test fallback.''), start configured_env)
   \<and> env_reads (snd (send_with_mailgun (JStr ''a'') (JStr ''b'') (JStr ''c'') (JStr ''d'')
        (JStr ''e'') (JBool True) providers_up (start configured_env))) = 0
   \<and> http_posts (snd (send_with_mailgun (JStr ''a'') (JStr ''b'') (JStr ''c'') (JStr ''d'')
        (JStr ''e'') (JBool True) providers_up (start configured_env))) = 0"
proof -
  have h: "truthy (JBool True)" by simp
  have z: "env_reads (start configured_env) = 0" "http_posts (start configured_env) = 0"
    by (simp_all add: count_defs start_def)
  note t = forced_failure_before_network [OF h, of "JStr ''a''" "JStr ''b''" "JStr ''c''"
      "JStr ''d''" "JStr ''e''" providers_up "start configured_env"]
  show ?thesis using h t z by simp
qed

text \<open>No provider call raises one of falcon's HTTP errors.\<close>

lemma raised_not_falcon [simp]:
  "\<not> is_HTTPNotFound (raised e)" "\<not> is_HTTPBadRequest (raised e)"
  by (cases e; simp)+

lemma mailgun_body_not_falcon:
  "fst (send_with_mailgun_body sender receiver subject text html raise_error net w) = Inl e
   \<Longrightarrow> \<not> is_HTTPNotFound e \<and> \<not> is_HTTPBadRequest e"
  by (auto simp: send_with_mailgun_body_def environ_subscript_def Let_def
      split: option.splits if_splits)

lemma mandrill_body_not_falcon:
  "fst (send_with_mandrill_body sender receiver subject text html net w) = Inl e
   \<Longrightarrow> \<not> is_HTTPNotFound e \<and> \<not> is_HTTPBadRequest e"
  by (auto simp: send_with_mandrill_body_def environ_subscript_def Let_def
      split: option.splits if_splits)

lemma breaker_call_not_falcon:
  assumes fn: "\<And>w e. fst (fn w) = Inl e \<Longrightarrow> \<not> is_HTTPNotFound e \<and> \<not> is_HTTPBadRequest e"
    and call: "fst (breaker_call cfg fn b w) = Inl e"
  shows "\<not> is_HTTPNotFound e \<and> \<not> is_HTTPBadRequest e"
proof (cases "breaker_admit cfg (clock w) b")
  case None
  with call have "e = CircuitBreakerError" by (simp add: breaker_call_def)
  then show ?thesis by simp
next
  case (Some b1)
  obtain r1 w1 where rw: "fn (before_call (listener cfg) w) = (r1, w1)"
    by (cases "fn (before_call (listener cfg) w)")
  with Some call have "r1 = Inl e"
    by (cases r1) (simp_all add: breaker_call_def)
  with rw fn [of "before_call (listener cfg) w" e] show ?thesis by simp
qed

lemma send_with_mailgun_not_falcon:
  assumes "send_with_mailgun sender receiver subject text html raise_error net w = (Inl e, w1)"
  shows "\<not> is_HTTPNotFound e \<and> \<not> is_HTTPBadRequest e"
proof (rule breaker_call_not_falcon)
  show "\<And>w e. fst (send_with_mailgun_body sender receiver subject text html raise_error net w) = Inl e
      \<Longrightarrow> \<not> is_HTTPNotFound e \<and> \<not> is_HTTPBadRequest e"
    by (rule mailgun_body_not_falcon)
  show "fst (breaker_call mailgun_breaker_cfg
          (send_with_mailgun_body sender receiver subject text html raise_error net)
          (mailgun_breaker (emit (Call ''send_with_mailgun'') w))
          (emit (Call ''send_with_mailgun'') w)) = Inl e"
    using assms by (simp add: send_with_mailgun_def Let_def split: prod.splits)
qed

lemma send_with_mandrill_not_falcon:
  assumes "send_with_mandrill sender receiver subject text html net w = (Inl e, w1)"
  shows "\<not> is_HTTPNotFound e \<and> \<not> is_HTTPBadRequest e"
proof (rule breaker_call_not_falcon)
  show "\<And>w e. fst (send_with_mandrill_body sender receiver subject text html net w) = Inl e
      \<Longrightarrow> \<not> is_HTTPNotFound e \<and> \<not> is_HTTPBadRequest e"
    by (rule mandrill_body_not_falcon)
  show "fst (breaker_call mandrill_breaker_cfg
          (send_with_mandrill_body sender receiver subject text html net)
          (mandrill_breaker (emit (Call ''send_with_mandrill'') w))
          (emit (Call ''send_with_mandrill'') w)) = Inl e"
    using assms by (simp add: send_with_mandrill_def Let_def split: prod.splits)
qed

lemma send_not_falcon:
  assumes "send sender receiver subject text html fallback net w = (Inl e, w1)"
  shows "\<not> is_HTTPNotFound e \<and> \<not> is_HTTPBadRequest e"
proof -
  obtain r0 w0 where p: "send_with_mailgun sender receiver subject text html fallback net w = (r0, w0)"
    by (cases "send_with_mailgun sender receiver subject text html fallback net w")
  with assms have "send_with_mandrill sender receiver subject text html net w0 = (Inl e, w1)"
    by (cases r0) (simp_all add: send_def)
  then show ?thesis by (rule send_with_mandrill_not_falcon)
qed

lemma on_post_try_not_falcon:
  assumes "on_post_try d net w = (Inl e, w1)"
  shows "\<not> is_HTTPNotFound e \<and> \<not> is_HTTPBadRequest e"
  using assms
  by (auto simp: on_post_try_def subscript_def split: option.splits dest: send_not_falcon)

lemma on_post_admitted_not_404:
  assumes "\<not> key_differs (dict_get d ''key'') (api_key self)"
  shows "fst (on_post self d net w) \<noteq> Inl HTTPNotFound"
proof -
  obtain r w1 where t: "on_post_try d net w = (r, w1)" by (cases "on_post_try d net w")
  show ?thesis
  proof (cases r)
    case (Inr u)
    with t assms show ?thesis by (simp add: on_post_def)
  next
    case (Inl e)
    with t on_post_try_not_falcon have "\<not> is_HTTPNotFound e" by blast
    with t Inl assms show ?thesis by (cases e) (simp_all add: on_post_def)
  qed
qed

lemma http_status_404:
  "http_status r = 404 \<longleftrightarrow> r = Inl HTTPNotFound"
  by (simp add: http_status_def split: sum.splits exn.splits)

text \<open>
  Claim C8. A resource constructed without a key, in a process where \<open>API_KEY\<close> is unset,
  has the secret \<open>None\<close>; a body without a \<open>key\<close> field then passes the comparison of
  \<open>on_post\<close>, and the handler's answer is not 404.
\<close>

theorem unset_secret_admits_missing_key:
  assumes unset: "env ''API_KEY'' = None"
    and no_key: "d ''key'' = None"
  shows "api_key (EmailsResource_init None env) = None
       \<and> \<not> key_differs (dict_get d ''key'') (api_key (EmailsResource_init None env))
       \<and> fst (on_post (EmailsResource_init None env) d net w) \<noteq> Inl HTTPNotFound
       \<and> http_status (fst (on_post (EmailsResource_init None env) d net w)) \<noteq> 404"
proof -
  have secret: "api_key (EmailsResource_init None env) = None"
    using unset by (simp add: EmailsResource_init_def)
  have gate: "\<not> key_differs (dict_get d ''key'') (api_key (EmailsResource_init None env))"
    using secret no_key by (simp add: dict_get_def)
  from on_post_admitted_not_404 [OF gate]
  have "fst (on_post (EmailsResource_init None env) d net w) \<noteq> Inl HTTPNotFound" .
  with secret gate show ?thesis by (simp add: http_status_404)
qed

theorem unset_secret_admits_missing_key_witness:
  "mailgun_only_env ''API_KEY'' = None \<and> request_body ''key'' = None
   \<and> api_key (EmailsResource_init None mailgun_only_env) = None
   \<and> http_status (fst (on_post (EmailsResource_init None mailgun_only_env) request_body
        providers_up (start mailgun_only_env))) \<noteq> 404"
proof -
  have unset: "mailgun_only_env ''API_KEY'' = None" by (simp add: mailgun_only_env_def)
  have no_key: "request_body ''key'' = None" by (simp add: request_body_def)
  from unset_secret_admits_missing_key [where env = mailgun_only_env and d = request_body
      and net = providers_up and w = "start mailgun_only_env", OF unset no_key]
    unset no_key show ?thesis by blast
qed

text \<open>
  Claim C5, at the input where the code departs from it. The claim asks for 404 whenever
  the body has no \<open>key\<close> field. A resource constructed without a key, in a process where
  \<open>API_KEY\<close> is unset, handles the body of \<open>tests.py\<close>, which has no \<open>key\<close> field, by
  sending the message through Mailgun and answering 204.
\<close>

theorem unauthenticated_request_is_served:
  "request_body ''key'' = None
   \<and> fst (on_post (EmailsResource_init None configured_env) request_body providers_up
        (start configured_env)) = Inr HTTP_204
   \<and> http_status (fst (on_post (EmailsResource_init None configured_env) request_body providers_up
        (start configured_env))) = 204
   \<and> http_posts (snd (on_post (EmailsResource_init None configured_env) request_body providers_up
        (start configured_env))) = 1"
  by (simp add: fixture_defs model_defs world_defs count_defs Let_def)

lemma auth_gate_with_secret:
  assumes "api_key self = Some s" and "d ''key'' \<noteq> Some (JStr s)"
  shows "on_post self d net w = (Inl HTTPNotFound, w)"
    and "http_status (fst (on_post self d net w)) = 404"
proof -
  have "key_differs (dict_get d ''key'') (api_key self)"
    using assms by (cases "d ''key''"; cases "dict_get d ''key''") (auto simp: dict_get_def)
  then show "on_post self d net w = (Inl HTTPNotFound, w)" by (simp add: on_post_def)
  then show "http_status (fst (on_post self d net w)) = 404" by (simp add: http_status_def)
qed

text \<open>
  Claim C10. When both provider calls raise and the error of \<open>send_with_mandrill\<close> is a
  \<open>KeyError\<close>, the handler's \<open>except KeyError\<close> branch answers 400 and names that key as
  missing from the body, exactly as for a missing body field; any other error of the
  secondary call leaves the handler as it is, which is a 500.
\<close>

theorem secondary_KeyError_is_bad_request:
  assumes key: "\<not> key_differs (dict_get d ''key'') (api_key self)"
    and fields: "d ''sender'' = Some sender" "d ''receiver'' = Some receiver"
      "d ''subject'' = Some subject" "d ''text'' = Some text" "d ''html'' = Some html"
    and primary: "send_with_mailgun sender receiver subject text html (dict_get d ''fallback'') net w
                    = (Inl e, w1)"
    and secondary: "send_with_mandrill sender receiver subject text html net w1 = (Inl e2, w2)"
  shows "fst (on_post self d net w) =
           (case e2 of
              KeyError k \<Rightarrow>
                Inl (HTTPBadRequest ''Missing field'' (str_KeyError k @ '' is missing from the body.''))
            | _ \<Rightarrow> Inl e2)
       \<and> http_status (fst (on_post self d net w)) = (if is_KeyError e2 then 400 else 500)"
proof -
  have tr: "on_post_try d net w = (Inl e2, w2)"
    using on_post_try_fields [OF fields] primary secondary by (simp add: send_def)
  have nf: "\<not> is_HTTPNotFound e2 \<and> \<not> is_HTTPBadRequest e2"
    using secondary by (rule send_with_mandrill_not_falcon)
  show ?thesis
    using key tr nf by (cases e2) (simp_all add: on_post_def http_status_def)
qed

theorem secondary_KeyError_is_bad_request_witness:
  "\<not> key_differs (dict_get authorized_body ''key'') (api_key test_resource)
   \<and> isl (fst (send_with_mailgun (JStr ''test@test.com'') (JStr ''test@test.com'') (JStr ''Example'')
            (JStr ''A text example'') (JStr ''A html example'')
            (dict_get authorized_body ''fallback'') providers_down (start mailgun_only_env)))
   \<and> fst (send_with_mandrill (JStr ''test@test.com'') (JStr ''test@test.com'') (JStr ''Example'')
            (JStr ''A text example'') (JStr ''A html example'') providers_down
            (snd (send_with_mailgun (JStr ''test@test.com'') (JStr ''test@test.com'')
               (JStr ''Example'') (JStr ''A text example'') (JStr ''A html example'')
               (dict_get authorized_body ''fallback'') providers_down (start mailgun_only_env))))
       = Inl (KeyError ''MANDRILL_API_KEY'')
   \<and> fst (on_post test_resource authorized_body providers_down (start mailgun_only_env))
       = Inl (HTTPBadRequest ''Missing field'' '''MANDRILL_API_KEY' is missing from the body.'')
   \<and> http_status (fst (on_post test_resource authorized_body providers_down
        (start mailgun_only_env))) = 400"
proof -
  let ?p = "send_with_mailgun (JStr ''test@test.com'') (JStr ''test@test.com'') (JStr ''Example'')
            (JStr ''A text example'') (JStr ''A html example'')
            (dict_get authorized_body ''fallback'') providers_down (start mailgun_only_env)"
  let ?s = "send_with_mandrill (JStr ''test@test.com'') (JStr ''test@test.com'') (JStr ''Example'')
            (JStr ''A text example'') (JStr ''A html example'') providers_down (snd ?p)"
  have key: "\<not> key_differs (dict_get authorized_body ''key'') (api_key test_resource)"
    by (simp add: fixture_defs dict_get_def)
  have fields: "authorized_body ''sender'' = Some (JStr ''test@test.com'')"
    "authorized_body ''receiver'' = Some (JStr ''test@test.com'')"
    "authorized_body ''subject'' = Some (JStr ''Example'')"
    "authorized_body ''text'' = Some (JStr ''A text example'')"
    "authorized_body ''html'' = Some (JStr ''A html example'')"
    by (simp_all add: fixture_defs)
  have p1: "fst ?p = Inl (OtherError ''HTTPError'')"
    by (simp add: fixture_defs model_defs world_defs Let_def)
  then have primary: "?p = (Inl (OtherError ''HTTPError''), snd ?p)"
    by (metis prod.collapse)
  have s1: "fst ?s = Inl (KeyError ''MANDRILL_API_KEY'')"
    by (simp add: fixture_defs model_defs world_defs Let_def)
  then have secondary: "?s = (Inl (KeyError ''MANDRILL_API_KEY''), snd ?s)"
    by (metis prod.collapse)
  note t = secondary_KeyError_is_bad_request [OF key fields primary secondary]
  from t have a: "fst (on_post test_resource authorized_body providers_down (start mailgun_only_env))
       = Inl (HTTPBadRequest ''Missing field'' '''MANDRILL_API_KEY' is missing from the body.'')"
    by (simp add: str_KeyError_def)
  from a have b: "http_status (fst (on_post test_resource authorized_body providers_down
        (start mailgun_only_env))) = 400" by (simp add: http_status_def)
  from p1 have c: "isl (fst ?p)" by simp
  show ?thesis using key c s1 a b by blast
qed

text \<open>
  Claim C4, at the input where the code departs from it. The claim asks for 500 whenever
  both provider calls raise. With \<open>fallback\<close> true and \<open>MANDRILL_API_KEY\<close> unset, the
  primary call raises its \<open>RuntimeError\<close>, the secondary call raises
  \<open>KeyError('MANDRILL_API_KEY')\<close>, that error leaves \<open>send\<close>, and the handler answers
  400, naming \<open>MANDRILL_API_KEY\<close> as missing from the body.
\<close>

theorem both_providers_fail_bad_request:
  "fst (send_with_mailgun (JStr ''test@test.com'') (JStr ''test@test.com'') (JStr ''Example'')
         (JStr ''A text example'') (JStr ''A html example'') (JBool True) providers_up
         (start mailgun_only_env))
     = Inl (RuntimeError ''Forcing mailgun to fail to test fallback.'')
   \<and> fst (send (JStr ''test@test.com'') (JStr ''test@test.com'') (JStr ''Example'')
         (JStr ''A text example'') (JStr ''A html example'') (JBool True) providers_up
         (start mailgun_only_env))
     = Inl (KeyError ''MANDRILL_API_KEY'')
   \<and> fst (on_post test_resource (authorized_body(''fallback'' \<mapsto> JBool True)) providers_up
         (start mailgun_only_env))
     = Inl (HTTPBadRequest ''Missing field'' '''MANDRILL_API_KEY' is missing from the body.'')
   \<and> http_status (fst (on_post test_resource (authorized_body(''fallback'' \<mapsto> JBool True))
         providers_up (start mailgun_only_env))) = 400"
  by (simp add: fixture_defs model_defs world_defs Let_def)

lemma both_providers_fail:
  assumes key: "\<not> key_differs (dict_get d ''key'') (api_key self)"
    and fields: "d ''sender'' = Some sender" "d ''receiver'' = Some receiver"
      "d ''subject'' = Some subject" "d ''text'' = Some text" "d ''html'' = Some html"
    and primary: "send_with_mailgun sender receiver subject text html (dict_get d ''fallback'') net w
                    = (Inl e, w1)"
    and secondary: "send_with_mandrill sender receiver subject text html net w1 = (Inl e2, w2)"
  shows "send sender receiver subject text html (dict_get d ''fallback'') net w = (Inl e2, w2)"
    and "calls ''send_with_mailgun'' (snd (on_post self d net w)) = Suc (calls ''send_with_mailgun'' w)"
    and "calls ''send_with_mandrill'' (snd (on_post self d net w)) = Suc (calls ''send_with_mandrill'' w)"
    and "\<not> is_KeyError e2 \<Longrightarrow> fst (on_post self d net w) = Inl e2"
    and "\<not> is_KeyError e2 \<Longrightarrow> http_status (fst (on_post self d net w)) = 500"
proof -
  show s: "send sender receiver subject text html (dict_get d ''fallback'') net w = (Inl e2, w2)"
    using primary secondary by (simp add: send_def)
  have tr: "on_post_try d net w = (Inl e2, w2)"
    using on_post_try_fields [OF fields] s by simp
  have nf: "\<not> is_HTTPNotFound e2 \<and> \<not> is_HTTPBadRequest e2"
    using secondary by (rule send_with_mandrill_not_falcon)
  have c1: "calls ''send_with_mailgun'' w2 = Suc (calls ''send_with_mailgun'' w)"
    using send_with_mandrill_counts(2) [OF secondary] send_with_mailgun_counts(1) [OF primary]
    by simp
  have c2: "calls ''send_with_mandrill'' w2 = Suc (calls ''send_with_mandrill'' w)"
    using send_with_mandrill_counts(1) [OF secondary] send_with_mailgun_counts(2) [OF primary]
    by simp
  show "calls ''send_with_mailgun'' (snd (on_post self d net w)) = Suc (calls ''send_with_mailgun'' w)"
    using key tr c1 by (cases e2) (simp_all add: on_post_def)
  show "calls ''send_with_mandrill'' (snd (on_post self d net w)) = Suc (calls ''send_with_mandrill'' w)"
    using key tr c2 by (cases e2) (simp_all add: on_post_def)
  show "\<not> is_KeyError e2 \<Longrightarrow> fst (on_post self d net w) = Inl e2"
    using key tr by (cases e2) (simp_all add: on_post_def)
  show "\<not> is_KeyError e2 \<Longrightarrow> http_status (fst (on_post self d net w)) = 500"
    using key tr nf by (cases e2) (simp_all add: on_post_def http_status_def)
qed

section \<open>The breaker\<close>

lemma breaker_call_failed:
  assumes "breaker_call cfg fn b w = (Inl e, b1, w1)"
  shows "b1 = breaker_after_failure cfg (clock w) b"
proof (cases "breaker_admit cfg (clock w) b")
  case None
  with assms show ?thesis by (simp add: breaker_call_def breaker_after_failure_def)
next
  case (Some b0)
  obtain r0 w0 where rw: "fn (before_call (listener cfg) w) = (r0, w0)"
    by (cases "fn (before_call (listener cfg) w)")
  with Some assms show ?thesis
    by (cases r0) (simp_all add: breaker_call_def breaker_after_failure_def)
qed

lemma after_failure_cases:
  "state (breaker_after_failure cfg now b) = Open
   \<or> (state b = Closed \<and> state (breaker_after_failure cfg now b) = Closed
      \<and> fail_counter (breaker_after_failure cfg now b) = Suc (fail_counter b)
      \<and> Suc (fail_counter b) < fail_max cfg)"
  by (cases "state b")
     (auto simp: breaker_after_failure_def breaker_admit_def breaker_failure_def)

lemma after_failure_stays_open:
  "state b = Open \<Longrightarrow> state (breaker_after_failure cfg now b) = Open"
  by (simp add: breaker_after_failure_def breaker_admit_def breaker_failure_def)

lemma failures_stay_open:
  "state b = Open \<Longrightarrow> state (foldl (\<lambda>b t. breaker_after_failure cfg t b) b ts) = Open"
  by (induction ts arbitrary: b) (simp_all add: after_failure_stays_open)

lemma failures_count:
  assumes "state (foldl (\<lambda>b t. breaker_after_failure cfg t b) b ts) \<noteq> Open"
  shows "fail_counter (foldl (\<lambda>b t. breaker_after_failure cfg t b) b ts)
           = fail_counter b + length ts
       \<and> (ts \<noteq> [] \<longrightarrow> fail_counter b + length ts < fail_max cfg)"
  using assms
proof (induction ts arbitrary: b)
  case Nil
  then show ?case by simp
next
  case (Cons t ts)
  let ?b1 = "breaker_after_failure cfg t b"
  from Cons.prems have rest: "state (foldl (\<lambda>b t. breaker_after_failure cfg t b) ?b1 ts) \<noteq> Open"
    by simp
  have "state ?b1 \<noteq> Open"
    using rest failures_stay_open [of ?b1 cfg ts] by blast
  with after_failure_cases [of cfg t b] have
    b1: "fail_counter ?b1 = Suc (fail_counter b)" "Suc (fail_counter b) < fail_max cfg"
    by auto
  from Cons.IH [OF rest] b1 show ?case
    by (cases ts) auto
qed

lemma five_failures_open:
  assumes "fail_max cfg \<le> 5" and "length ts = 5"
  shows "state (foldl (\<lambda>b t. breaker_after_failure cfg t b) b ts) = Open"
proof (rule ccontr)
  assume "state (foldl (\<lambda>b t. breaker_after_failure cfg t b) b ts) \<noteq> Open"
  from failures_count [OF this] assms show False by auto
qed




lemma send_with_mailgun_failed:
  assumes "send_with_mailgun sender receiver subject text html raise_error net w = (Inl e, w1)"
  shows "mailgun_breaker w1 = breaker_after_failure mailgun_breaker_cfg (clock w) (mailgun_breaker w)"
proof -
  let ?w0 = "emit (Call ''send_with_mailgun'') w"
  let ?fn = "send_with_mailgun_body sender receiver subject text html raise_error net"
  obtain r b1 w' where bc: "breaker_call mailgun_breaker_cfg ?fn (mailgun_breaker ?w0) ?w0 = (r, b1, w')"
    by (cases "breaker_call mailgun_breaker_cfg ?fn (mailgun_breaker ?w0) ?w0") auto
  with assms have "r = Inl e" and w1: "w1 = w'\<lparr>mailgun_breaker := b1\<rparr>"
    by (simp_all add: send_with_mailgun_def Let_def)
  with bc have "b1 = breaker_after_failure mailgun_breaker_cfg (clock ?w0) (mailgun_breaker ?w0)"
    using breaker_call_failed by blast
  with w1 show ?thesis by (simp add: emit_def)
qed

lemma open_call_rejected:
  assumes "state (mailgun_breaker w) = Open" and "clock w < last_failure (mailgun_breaker w) + 60"
  shows "send_with_mailgun sender receiver subject text html raise_error net w
           = (Inl CircuitBreakerError, emit (Call ''send_with_mailgun'') w)"
  using assms
  by (simp add: send_with_mailgun_def breaker_call_def breaker_admit_def mailgun_breaker_cfg_def
      Let_def emit_def)

lemma http_posts_emit_Log [simp]: "http_posts (emit (Log lvl msg) w) = http_posts w"
  by (simp add: http_posts_def emit_def)

lemma mailgun_breaker_emit [simp]: "mailgun_breaker (emit ev w) = mailgun_breaker w"
  by (simp add: emit_def)

lemma on_post_primary_part:
  assumes key: "\<not> key_differs (dict_get d ''key'') (api_key self)"
    and fields: "d ''sender'' = Some sender" "d ''receiver'' = Some receiver"
      "d ''subject'' = Some subject" "d ''text'' = Some text" "d ''html'' = Some html"
    and primary: "send_with_mailgun sender receiver subject text html (dict_get d ''fallback'') net w
                    = (r, w1)"
  shows "mailgun_breaker (snd (on_post self d net w)) = mailgun_breaker w1"
    and "http_posts (snd (on_post self d net w)) = http_posts w1"
    and "isl r \<Longrightarrow> calls ''send_with_mandrill'' (snd (on_post self d net w))
                    = Suc (calls ''send_with_mandrill'' w)"
proof -
  obtain r2 w2 where tr: "on_post_try d net w = (r2, w2)" by (cases "on_post_try d net w")
  have post: "mailgun_breaker (snd (on_post self d net w)) = mailgun_breaker w2
      \<and> http_posts (snd (on_post self d net w)) = http_posts w2
      \<and> calls ''send_with_mandrill'' (snd (on_post self d net w)) = calls ''send_with_mandrill'' w2"
    using key tr by (auto simp: on_post_def split: sum.splits exn.splits)
  have "mailgun_breaker w2 = mailgun_breaker w1 \<and> http_posts w2 = http_posts w1
      \<and> (isl r \<longrightarrow> calls ''send_with_mandrill'' w2 = Suc (calls ''send_with_mandrill'' w))"
  proof (cases r)
    case (Inr u)
    have "on_post_try d net w = (Inr u, w1)"
      using Inr primary on_post_try_fields [OF fields, of net w] by (simp add: send_def)
    with tr have "w2 = w1" by simp
    with Inr show ?thesis by simp
  next
    case (Inl e)
    with tr primary on_post_try_fields [OF fields, of net w]
    have s: "send_with_mandrill sender receiver subject text html net w1 = (r2, w2)"
      by (simp add: send_def)
    from send_with_mandrill_keeps(1) [OF s] send_with_mandrill_counts(1,3) [OF s]
      send_with_mailgun_counts(2) [OF primary]
    show ?thesis by simp
  qed
  with post show "mailgun_breaker (snd (on_post self d net w)) = mailgun_breaker w1"
    and "http_posts (snd (on_post self d net w)) = http_posts w1"
    and "isl r \<Longrightarrow> calls ''send_with_mandrill'' (snd (on_post self d net w))
                    = Suc (calls ''send_with_mandrill'' w)"
    by simp_all
qed

lemma forced_request_breaker:
  assumes "authorized_complete self d" and "truthy (dict_get d ''fallback'')"
  shows "mailgun_breaker (snd (on_post self d net w))
           = breaker_after_failure mailgun_breaker_cfg (clock w) (mailgun_breaker w)"
proof -
  from assms(1) obtain a1 a2 a3 a4 a5 where
    key: "\<not> key_differs (dict_get d ''key'') (api_key self)" and
    fields: "d ''sender'' = Some a1" "d ''receiver'' = Some a2"
      "d ''subject'' = Some a3" "d ''text'' = Some a4" "d ''html'' = Some a5"
    by (auto simp: authorized_complete_def)
  let ?p = "send_with_mailgun a1 a2 a3 a4 a5 (dict_get d ''fallback'') net w"
  from forced_call_raises [OF assms(2)] have "isl (fst ?p)" .
  then obtain e w1 where p: "?p = (Inl e, w1)" by (cases ?p) (auto simp: isl_def)
  from on_post_primary_part(1) [OF key fields p] send_with_mailgun_failed [OF p]
  show ?thesis by simp
qed

lemma forced_requests_breaker:
  assumes "list_all (\<lambda>(t, d, net). authorized_complete self d \<and> truthy (dict_get d ''fallback'')) rs"
  shows "mailgun_breaker (handle_requests self rs w)
           = foldl (\<lambda>b t. breaker_after_failure mailgun_breaker_cfg t b) (mailgun_breaker w)
               (map fst rs)"
  using assms
proof (induction rs arbitrary: w)
  case Nil
  then show ?case by simp
next
  case (Cons r rs)
  obtain t d net where r: "r = (t, d, net)" by (cases r)
  with Cons.prems have ok: "authorized_complete self d" "truthy (dict_get d ''fallback'')"
    and rest: "list_all (\<lambda>(t, d, net). authorized_complete self d \<and> truthy (dict_get d ''fallback'')) rs"
    by simp_all
  from forced_request_breaker [OF ok, of net "w\<lparr>clock := t\<rparr>"]
  have "mailgun_breaker (snd (on_post self d net (w\<lparr>clock := t\<rparr>)))
      = breaker_after_failure mailgun_breaker_cfg t (mailgun_breaker w)" by simp
  with Cons.IH [OF rest, of "snd (on_post self d net (w\<lparr>clock := t\<rparr>))"] r
  show ?case by simp
qed

lemma five_elements:
  "length xs = 5 \<Longrightarrow> \<exists>a b c d e. xs = [a, b, c, d, e]"
  by (auto simp: length_Suc_conv numeral_eq_Suc)

lemma five_failures_fresh:
  assumes "length ts = 5" and "state b = Closed" and "fail_counter b = 0"
  shows "foldl (\<lambda>b t. breaker_after_failure mailgun_breaker_cfg t b) b ts
           = b\<lparr>fail_counter := 5, state := Open, last_failure := last ts\<rparr>"
proof -
  from five_elements [OF assms(1)] obtain t1 t2 t3 t4 t5 where ts: "ts = [t1, t2, t3, t4, t5]"
    by blast
  show ?thesis
    using assms(2,3) unfolding ts
    by (simp add: breaker_after_failure_def breaker_admit_def breaker_failure_def
        mailgun_breaker_cfg_def)
qed

text \<open>
  Claim C9. A forced failure goes through the primary breaker like any failure of the
  provider: the breaker after a forced call is the breaker after a failing call without
  \<open>fallback\<close>, and on a closed breaker the failure count goes up by one. Five consecutive
  requests with a true \<open>fallback\<close> leave the primary breaker open (from a closed breaker
  with no failures: five failures, stamped at the time of the fifth request), and until 60
  time units have passed since that failure a request with or without \<open>fallback\<close> makes
  no HTTP request to Mailgun and goes to \<open>send_with_mandrill\<close>.
\<close>

theorem forced_failures_trip_primary_breaker:
  assumes forced: "list_all (\<lambda>(t, d, net). authorized_complete self d
                                \<and> truthy (dict_get d ''fallback'')) rs"
    and five: "length rs = 5"
  shows "(truthy f \<and> \<not> truthy g \<and> isl (fst (send_with_mailgun a1 a2 a3 a4 a5 g net1 w0))
            \<longrightarrow> mailgun_breaker (snd (send_with_mailgun a1 a2 a3 a4 a5 f net0 w0))
                  = mailgun_breaker (snd (send_with_mailgun a1 a2 a3 a4 a5 g net1 w0)))
       \<and> (truthy f \<and> state (mailgun_breaker w0) = Closed
            \<longrightarrow> fail_counter (mailgun_breaker (snd (send_with_mailgun a1 a2 a3 a4 a5 f net0 w0)))
                  = Suc (fail_counter (mailgun_breaker w0)))
       \<and> state (mailgun_breaker (handle_requests self rs w)) = Open
       \<and> (state (mailgun_breaker w) = Closed \<and> fail_counter (mailgun_breaker w) = 0
            \<longrightarrow> mailgun_breaker (handle_requests self rs w)
                  = (mailgun_breaker w)\<lparr>fail_counter := 5, state := Open,
                                       last_failure := fst (last rs)\<rparr>)
       \<and> (authorized_complete self d
            \<and> t < last_failure (mailgun_breaker (handle_requests self rs w)) + 60
            \<longrightarrow> http_posts (snd (on_post self d net ((handle_requests self rs w)\<lparr>clock := t\<rparr>)))
                  = http_posts (handle_requests self rs w)
              \<and> calls ''send_with_mandrill''
                    (snd (on_post self d net ((handle_requests self rs w)\<lparr>clock := t\<rparr>)))
                  = Suc (calls ''send_with_mandrill'' (handle_requests self rs w)))"
proof -
  let ?w5 = "handle_requests self rs w"
  let ?step = "\<lambda>b t. breaker_after_failure mailgun_breaker_cfg t b"
  have like: "truthy f \<and> \<not> truthy g \<and> isl (fst (send_with_mailgun a1 a2 a3 a4 a5 g net1 w0))
            \<longrightarrow> mailgun_breaker (snd (send_with_mailgun a1 a2 a3 a4 a5 f net0 w0))
                  = mailgun_breaker (snd (send_with_mailgun a1 a2 a3 a4 a5 g net1 w0))"
  proof
    assume h: "truthy f \<and> \<not> truthy g \<and> isl (fst (send_with_mailgun a1 a2 a3 a4 a5 g net1 w0))"
    then obtain e1 w1 where real: "send_with_mailgun a1 a2 a3 a4 a5 g net1 w0 = (Inl e1, w1)"
      by (cases "send_with_mailgun a1 a2 a3 a4 a5 g net1 w0") (auto simp: isl_def)
    from h forced_call_raises [of f a1 a2 a3 a4 a5 net0 w0]
    obtain e2 w2 where forc: "send_with_mailgun a1 a2 a3 a4 a5 f net0 w0 = (Inl e2, w2)"
      by (cases "send_with_mailgun a1 a2 a3 a4 a5 f net0 w0") (auto simp: isl_def)
    from send_with_mailgun_failed [OF real] send_with_mailgun_failed [OF forc] real forc
    show "mailgun_breaker (snd (send_with_mailgun a1 a2 a3 a4 a5 f net0 w0))
                  = mailgun_breaker (snd (send_with_mailgun a1 a2 a3 a4 a5 g net1 w0))"
      by simp
  qed
  have incr: "truthy f \<and> state (mailgun_breaker w0) = Closed
            \<longrightarrow> fail_counter (mailgun_breaker (snd (send_with_mailgun a1 a2 a3 a4 a5 f net0 w0)))
                  = Suc (fail_counter (mailgun_breaker w0))"
    by (simp add: forced_call breaker_admit_def breaker_failure_def)
  have seq: "mailgun_breaker ?w5 = foldl ?step (mailgun_breaker w) (map fst rs)"
    using forced by (rule forced_requests_breaker)
  have opened: "state (mailgun_breaker ?w5) = Open"
    using five_failures_open [of mailgun_breaker_cfg "map fst rs" "mailgun_breaker w"] five seq
    by (simp add: mailgun_breaker_cfg_def)
  have fresh: "state (mailgun_breaker w) = Closed \<and> fail_counter (mailgun_breaker w) = 0
            \<longrightarrow> mailgun_breaker ?w5
                  = (mailgun_breaker w)\<lparr>fail_counter := 5, state := Open,
                                       last_failure := fst (last rs)\<rparr>"
  proof
    assume h: "state (mailgun_breaker w) = Closed \<and> fail_counter (mailgun_breaker w) = 0"
    from five have ne: "rs \<noteq> []" by auto
    from five_failures_fresh [of "map fst rs" "mailgun_breaker w"] five h seq
    have "mailgun_breaker ?w5 = (mailgun_breaker w)\<lparr>fail_counter := 5, state := Open,
        last_failure := last (map fst rs)\<rparr>" by simp
    with ne show "mailgun_breaker ?w5 = (mailgun_breaker w)\<lparr>fail_counter := 5, state := Open,
        last_failure := fst (last rs)\<rparr>" by (simp add: last_map)
  qed
  have skip: "authorized_complete self d \<and> t < last_failure (mailgun_breaker ?w5) + 60
            \<longrightarrow> http_posts (snd (on_post self d net (?w5\<lparr>clock := t\<rparr>))) = http_posts ?w5
              \<and> calls ''send_with_mandrill'' (snd (on_post self d net (?w5\<lparr>clock := t\<rparr>)))
                  = Suc (calls ''send_with_mandrill'' ?w5)"
  proof
    assume h: "authorized_complete self d \<and> t < last_failure (mailgun_breaker ?w5) + 60"
    let ?w = "?w5\<lparr>clock := t\<rparr>"
    from h obtain b1 b2 b3 b4 b5 where
      key: "\<not> key_differs (dict_get d ''key'') (api_key self)" and
      fields: "d ''sender'' = Some b1" "d ''receiver'' = Some b2"
        "d ''subject'' = Some b3" "d ''text'' = Some b4" "d ''html'' = Some b5"
      by (auto simp: authorized_complete_def)
    have "state (mailgun_breaker ?w) = Open" "clock ?w < last_failure (mailgun_breaker ?w) + 60"
      using opened h by simp_all
    then have p: "send_with_mailgun b1 b2 b3 b4 b5 (dict_get d ''fallback'') net ?w
        = (Inl CircuitBreakerError, emit (Call ''send_with_mailgun'') ?w)"
      by (rule open_call_rejected)
    from on_post_primary_part(2,3) [OF key fields p]
    show "http_posts (snd (on_post self d net ?w)) = http_posts ?w5
              \<and> calls ''send_with_mandrill'' (snd (on_post self d net ?w))
                  = Suc (calls ''send_with_mandrill'' ?w5)"
      by (simp add: http_posts_def calls_def emit_def)
  qed
  from like incr opened fresh skip show ?thesis by blast
qed


theorem forced_failures_trip_primary_breaker_witness:
  "list_all (\<lambda>(t, d, net). authorized_complete test_resource d \<and> truthy (dict_get d ''fallback''))
     forced_requests
   \<and> length forced_requests = 5
   \<and> mailgun_breaker (handle_requests test_resource forced_requests (start configured_env))
       = \<lparr>fail_counter = 5, state = Open, last_failure = 5\<rparr>
   \<and> authorized_complete test_resource authorized_body
   \<and> \<not> truthy (dict_get authorized_body ''fallback'')
   \<and> http_posts (snd (on_post test_resource authorized_body providers_up
        (at_time 64 (handle_requests test_resource forced_requests (start configured_env)))))
       = http_posts (handle_requests test_resource forced_requests (start configured_env))
   \<and> calls ''send_with_mandrill'' (snd (on_post test_resource authorized_body providers_up
        (at_time 64 (handle_requests test_resource forced_requests (start configured_env)))))
       = Suc (calls ''send_with_mandrill''
           (handle_requests test_resource forced_requests (start configured_env)))
   \<and> isl (fst (send_with_mailgun (JStr ''a'') (JStr ''b'') (JStr ''c'') (JStr ''d'') (JStr ''e'')
        JNull providers_down (start configured_env)))
   \<and> mailgun_breaker (snd (send_with_mailgun (JStr ''a'') (JStr ''b'') (JStr ''c'') (JStr ''d'')
        (JStr ''e'') (JBool True) providers_up (start configured_env)))
       = mailgun_breaker (snd (send_with_mailgun (JStr ''a'') (JStr ''b'') (JStr ''c'') (JStr ''d'')
        (JStr ''e'') JNull providers_down (start configured_env)))
   \<and> fail_counter (mailgun_breaker (snd (send_with_mailgun (JStr ''a'') (JStr ''b'') (JStr ''c'')
        (JStr ''d'') (JStr ''e'') (JBool True) providers_up (start configured_env)))) = 1"
proof -
  let ?w = "start configured_env"
  let ?w5 = "handle_requests test_resource forced_requests ?w"
  have auth: "authorized_complete test_resource authorized_body"
    by (simp add: authorized_complete_def fixture_defs dict_get_def)
  have auth': "authorized_complete test_resource forced_body"
    by (simp add: authorized_complete_def forced_body_def fixture_defs dict_get_def)
  have tr: "truthy (dict_get forced_body ''fallback'')"
    by (simp add: forced_body_def dict_get_def)
  have nofb: "\<not> truthy (dict_get authorized_body ''fallback'')"
    by (simp add: fixture_defs dict_get_def)
  have forced: "list_all (\<lambda>(t, d, net). authorized_complete test_resource d
      \<and> truthy (dict_get d ''fallback'')) forced_requests"
    using auth' tr by (simp add: forced_requests_def)
  have five: "length forced_requests = 5" by (simp add: forced_requests_def)
  have real: "isl (fst (send_with_mailgun (JStr ''a'') (JStr ''b'') (JStr ''c'') (JStr ''d'')
      (JStr ''e'') JNull providers_down ?w))"
    by (simp add: fixture_defs model_defs world_defs Let_def)
  have fresh: "state (mailgun_breaker ?w) = Closed" "fail_counter (mailgun_breaker ?w) = 0"
    by (simp_all add: start_def fresh_breaker_def)
  note t = forced_failures_trip_primary_breaker [OF forced five,
      where f = "JBool True" and g = JNull and ?a1.0 = "JStr ''a''" and ?a2.0 = "JStr ''b''"
        and ?a3.0 = "JStr ''c''" and ?a4.0 = "JStr ''d''" and ?a5.0 = "JStr ''e''"
        and ?net0.0 = providers_up and ?net1.0 = providers_down and ?w0.0 = ?w and w = ?w
        and d = authorized_body and t = 64 and net = providers_up]
  from t fresh have "mailgun_breaker ?w5 = (mailgun_breaker ?w)\<lparr>fail_counter := 5, state := Open,
      last_failure := fst (last forced_requests)\<rparr>" by blast
  then have br: "mailgun_breaker ?w5 = \<lparr>fail_counter = 5, state = Open, last_failure = 5\<rparr>"
    by (simp add: start_def fresh_breaker_def forced_requests_def)
  then have cool: "64 < last_failure (mailgun_breaker ?w5) + 60" by simp
  from t auth cool have skip: "http_posts (snd (on_post test_resource authorized_body providers_up
        (at_time 64 ?w5))) = http_posts ?w5
      \<and> calls ''send_with_mandrill'' (snd (on_post test_resource authorized_body providers_up
        (at_time 64 ?w5))) = Suc (calls ''send_with_mandrill'' ?w5)"
    unfolding at_time_def by blast
  from t real have same: "mailgun_breaker (snd (send_with_mailgun (JStr ''a'') (JStr ''b'')
        (JStr ''c'') (JStr ''d'') (JStr ''e'') (JBool True) providers_up ?w))
       = mailgun_breaker (snd (send_with_mailgun (JStr ''a'') (JStr ''b'') (JStr ''c'') (JStr ''d'')
        (JStr ''e'') JNull providers_down ?w))" by simp
  from t fresh have one: "fail_counter (mailgun_breaker (snd (send_with_mailgun (JStr ''a'')
        (JStr ''b'') (JStr ''c'') (JStr ''d'') (JStr ''e'') (JBool True) providers_up ?w))) = 1"
    by simp
  from forced five br auth nofb skip real same one show ?thesis by blast
qed

end
